theory Spec2Isabelle
  imports Complex_Main
begin

section \<open>Strings\<close>

text \<open>
  A Python \<open>str\<close> is a sequence of Unicode code points. A code point is a natural
  number and a string a list of them, so that the two non-ASCII characters of the
  templates (U+2019 in the resume, U+2013 in the portfolio) are one character each, as
  they are for Python. \<open>lit\<close> turns an ASCII literal into such a string.
\<close>

type_synonym codepoint = nat
type_synonym str = "codepoint list"

definition lit :: "string \<Rightarrow> str" where
  "lit s = map of_char s"

definition is_lower_ascii :: "codepoint \<Rightarrow> bool" where
  "is_lower_ascii c = (97 \<le> c \<and> c \<le> 122)"

definition is_upper_ascii :: "codepoint \<Rightarrow> bool" where
  "is_upper_ascii c = (65 \<le> c \<and> c \<le> 90)"

text \<open>
  The characters for which \<open>str.isspace\<close> holds, which are also the characters the
  regular expression \<open>\s\<close> matches on a \<open>str\<close> pattern: the ASCII controls 9 to 13 and
  28 to 31, the space, U+0085, U+00A0, U+1680, U+2000 to U+200A, U+2028, U+2029,
  U+202F, U+205F and U+3000.
\<close>

definition is_space :: "codepoint \<Rightarrow> bool" where
  "is_space c =
     ((9 \<le> c \<and> c \<le> 13) \<or> (28 \<le> c \<and> c \<le> 32) \<or> c = 133 \<or> c = 160 \<or> c = 5760
      \<or> (8192 \<le> c \<and> c \<le> 8202) \<or> c = 8232 \<or> c = 8233 \<or> c = 8239 \<or> c = 8287
      \<or> c = 12288)"

text \<open>
  \<open>str.lower\<close> and the digit class \<open>\d\<close> read the interpreter's Unicode tables (the
  lowercase mappings with their context rule for the final sigma, and the characters
  of category Nd). The tables are not part of the repository, so they are a parameter
  of the model. \<open>unicode_ok\<close> states what the program relies on: on ASCII the tables
  are the ASCII ones, and lowercasing never produces an uppercase ASCII letter.
\<close>

record unicode_db =
  str_lower :: "str \<Rightarrow> str"
  is_decimal :: "codepoint \<Rightarrow> bool"

definition ascii_lower :: "codepoint \<Rightarrow> codepoint" where
  "ascii_lower c = (if is_upper_ascii c then c + 32 else c)"

definition ascii_digit :: "codepoint \<Rightarrow> bool" where
  "ascii_digit c = (48 \<le> c \<and> c \<le> 57)"

definition unicode_ok :: "unicode_db \<Rightarrow> bool" where
  "unicode_ok U =
     ((\<forall>s. (\<forall>c \<in> set s. c < 128) \<longrightarrow> str_lower U s = map ascii_lower s)
      \<and> (\<forall>s. \<forall>c \<in> set (str_lower U s). \<not> is_upper_ascii c)
      \<and> (\<forall>c. c < 128 \<longrightarrow> is_decimal U c = ascii_digit c))"

text \<open>The tables cut down to ASCII: every other character is left alone.\<close>

definition ascii_db :: unicode_db where
  "ascii_db = \<lparr>str_lower = map ascii_lower, is_decimal = ascii_digit\<rparr>"

text \<open>\<open>s.strip()\<close>: the whitespace at both ends is dropped.\<close>

definition str_strip :: "str \<Rightarrow> str" where
  "str_strip s = rev (dropWhile is_space (rev (dropWhile is_space s)))"

text \<open>
  \<open>s.split("\n")\<close>: the pieces between the newlines, so one piece more than there
  are newlines. \<open>cur\<close> is the piece being read, in reverse.
\<close>

fun split_from :: "codepoint \<Rightarrow> str \<Rightarrow> str \<Rightarrow> str list" where
  "split_from sep cur [] = [rev cur]"
| "split_from sep cur (c # cs) =
     (if c = sep then rev cur # split_from sep [] cs else split_from sep (c # cur) cs)"

definition str_split :: "str \<Rightarrow> codepoint \<Rightarrow> str list" where
  "str_split s sep = split_from sep [] s"

section \<open>Regular-expression substitution\<close>

text \<open>
  \<open>re.sub\<close> scans from the left and replaces every match. For a pattern that is one
  character class, each character of the class is a match; for a class followed by
  \<open>+\<close>, a match is a maximal run of characters of the class.
\<close>

fun re_sub_class :: "(codepoint \<Rightarrow> bool) \<Rightarrow> str \<Rightarrow> str \<Rightarrow> str" where
  "re_sub_class P repl [] = []"
| "re_sub_class P repl (c # cs) =
     (if P c then repl @ re_sub_class P repl cs else c # re_sub_class P repl cs)"

function re_sub_plus :: "(codepoint \<Rightarrow> bool) \<Rightarrow> str \<Rightarrow> str \<Rightarrow> str" where
  "re_sub_plus P repl [] = []"
| "re_sub_plus P repl (c # cs) =
     (if P c then repl @ re_sub_plus P repl (dropWhile P cs)
      else c # re_sub_plus P repl cs)"
  by pat_completeness auto
termination
  by (relation "measure (\<lambda>(P, repl, s). length s)")
     (auto simp: length_dropWhile_le less_Suc_eq_le)

section \<open>Text cleaning\<close>

text \<open>
  \<^verbatim>\<open>
  def clean_text(text):
      text = str(text).lower()
      text = re.sub(r"\d+", "", text)
      text = re.sub(r"[^a-zA-Z\s]", "", text)
      text = re.sub(r"\s+", " ", text)
      return text
  \<close>
  The argument is a \<open>str\<close> already, so \<open>str(text)\<close> is the text itself.
\<close>

definition keep_class :: "codepoint \<Rightarrow> bool" where
  "keep_class c = (is_lower_ascii c \<or> is_upper_ascii c \<or> is_space c)"

definition clean_text :: "unicode_db \<Rightarrow> str \<Rightarrow> str" where
  "clean_text U text =
     (let text1 = str_lower U text;
          text2 = re_sub_plus (is_decimal U) [] text1;
          text3 = re_sub_class (\<lambda>c. \<not> keep_class c) [] text2;
          text4 = re_sub_plus is_space (lit '' '') text3
      in text4)"

text \<open>No two neighbours of the string are both the space character.\<close>

fun no_adjacent_spaces :: "str \<Rightarrow> bool" where
  "no_adjacent_spaces (a # b # cs) = (\<not> (a = 32 \<and> b = 32) \<and> no_adjacent_spaces (b # cs))"
| "no_adjacent_spaces cs = True"

section \<open>Content generators\<close>

text \<open>
  The templates of \<open>generate_resume\<close>, \<open>generate_cover_letter\<close> and
  \<open>generate_portfolio\<close>, one piece per line of the source. The role is formatted into
  the text by an f-string, so it appears as it is.
\<close>

definition generate_resume :: "str \<Rightarrow> str" where
  "generate_resume role =
     lit ''PROFESSIONAL RESUME\<newline>\<newline>''
     @ lit ''Target Role: '' @ role @ lit ''\<newline>\<newline>''
     @ lit ''PROFESSIONAL SUMMARY\<newline>''
     @ lit ''Motivated professional seeking a role in this domain.\<newline>''
     @ lit ''Strong foundation in technical skills and problem solving.\<newline>\<newline>''
     @ lit ''CORE SKILLS\<newline>''
     @ lit ''- Python, Machine Learning, Streamlit, Data Analysis\<newline>''
     @ lit ''- Communication, Teamwork, Problem Solving\<newline>''
     @ lit ''- Tools: Git, Jupyter Notebook, VS Code\<newline>\<newline>''
     @ lit ''PROJECT EXPERIENCE\<newline>''
     @ lit ''AI Resume & Portfolio Builder\<newline>''
     @ lit ''- Built a ML model to classify resumes.\<newline>''
     @ lit ''- Deployed an interactive app using Streamlit.\<newline>\<newline>''
     @ lit ''EDUCATION\<newline>''
     @ lit ''Bachelor'' @ [8217] @ lit ''s Degree in a relevant discipline\<newline>\<newline>''
     @ lit ''CERTIFICATIONS\<newline>''
     @ lit ''- Python for Data Science\<newline>''
     @ lit ''- Machine Learning Fundamentals\<newline>\<newline>''
     @ lit ''ADDITIONAL INFORMATION\<newline>''
     @ lit ''Strong interest in continuous learning and AI applications.\<newline>''"

definition generate_cover_letter :: "str \<Rightarrow> str" where
  "generate_cover_letter role =
     lit ''Dear Hiring Manager,\<newline>\<newline>''
     @ lit ''I am applying for the '' @ role @ lit '' position at your organization.\<newline>''
     @ lit ''I have strong technical skills and hands-on project experience.\<newline>\<newline>''
     @ lit ''I recently built an AI Resume & Portfolio Builder using\<newline>''
     @ lit ''machine learning and Streamlit to automate document creation.\<newline>\<newline>''
     @ lit ''I am motivated, adaptable, and eager to contribute effectively.\<newline>\<newline>''
     @ lit ''Thank you for your time and consideration.\<newline>\<newline>''
     @ lit ''Sincerely,\<newline>''
     @ lit ''Applicant\<newline>''"

definition generate_portfolio :: "str \<Rightarrow> str" where
  "generate_portfolio role =
     lit ''PORTFOLIO PROFILE '' @ [8211] @ lit '' '' @ role @ lit ''\<newline>\<newline>''
     @ lit ''ABOUT ME\<newline>''
     @ lit ''Aspiring professional with strong interest in AI and software.\<newline>\<newline>''
     @ lit ''TECHNICAL SKILLS\<newline>''
     @ lit ''- Python, SQL\<newline>''
     @ lit ''- Machine Learning, NLP\<newline>''
     @ lit ''- Streamlit\<newline>''
     @ lit ''- Git, Jupyter, VS Code\<newline>\<newline>''
     @ lit ''PROJECTS\<newline>''
     @ lit ''AI Resume & Portfolio Builder\<newline>''
     @ lit ''- Built a resume classification model.\<newline>''
     @ lit ''- Integrated into a Streamlit web app.\<newline>\<newline>''
     @ lit ''CAREER OBJECTIVE\<newline>''
     @ lit ''To apply technical skills, grow professionally, and\<newline>''
     @ lit ''contribute to innovative projects.\<newline>\<newline>''
     @ lit ''CONTACT\<newline>''
     @ lit ''Email: your_email@example.com\<newline>''
     @ lit ''GitHub: https://github.com/yourprofile\<newline>''
     @ lit ''LinkedIn: https://linkedin.com/in/yourprofile\<newline>''"

section \<open>Job customization\<close>

definition customize_for_job :: "str \<Rightarrow> str \<Rightarrow> str \<Rightarrow> str" where
  "customize_for_job role resume_input job_desc =
     (if str_strip job_desc = [] then generate_resume role
      else
        lit ''PROFESSIONAL RESUME (CUSTOMIZED)\<newline>\<newline>''
        @ lit ''Target Role: '' @ role @ lit ''\<newline>\<newline>''
        @ lit ''CUSTOMIZED SUMMARY\<newline>''
        @ lit ''This resume has been tailored to align with the job description.\<newline>\<newline>''
        @ lit ''JOB DESCRIPTION KEY REQUIREMENTS\<newline>''
        @ job_desc @ lit ''\<newline>\<newline>''
        @ lit ''CANDIDATE PROFILE\<newline>''
        @ resume_input @ lit ''\<newline>\<newline>''
        @ lit ''KEY ALIGNMENT\<newline>''
        @ lit ''- Skills aligned with job requirements.\<newline>''
        @ lit ''- Keywords optimized for ATS systems.\<newline>''
        @ lit ''- Content adjusted to match role expectations.\<newline>'')"

section \<open>File export\<close>

text \<open>
  \<open>generate_word_file\<close> builds the document with python-docx, which is not part of
  the repository; its \<open>Document()\<close> and \<open>add_paragraph\<close> are modelled from the library.
  \<open>Document()\<close> starts without paragraphs. \<open>add_paragraph(text)\<close> appends a paragraph
  and, when the text is not empty, gives it one run whose content is built character
  by character: a tab becomes a tab element, a carriage return or a newline becomes a
  break element, and the characters between them are collected and stored as a text
  element. Storing a text element raises \<open>ValueError\<close> when the text holds a character
  that XML 1.0 does not allow (lxml: "All strings must be XML compatible"). The
  allowed characters are the tab, the newline, the carriage return, U+0020 to U+D7FF,
  U+E000 to U+FFFD and U+10000 to U+10FFFF.
\<close>

datatype py_error = IndexError | ValueError

definition xml_char :: "codepoint \<Rightarrow> bool" where
  "xml_char c =
     (c = 9 \<or> c = 10 \<or> c = 13 \<or> (32 \<le> c \<and> c \<le> 55295) \<or> (57344 \<le> c \<and> c \<le> 65533)
      \<or> (65536 \<le> c \<and> c \<le> 1114111))"

datatype run_item = RunT str | RunTab | RunBr

text \<open>A paragraph is the content of its run; a paragraph without a run is empty.\<close>

record docx_document =
  paragraphs :: "run_item list list"

definition new_document :: docx_document where
  "new_document = \<lparr>paragraphs = []\<rparr>"

text \<open>The characters collected so far become one text element, if there are any.\<close>

definition flush :: "str \<Rightarrow> py_error + run_item list" where
  "flush bfr =
     (if bfr = [] then Inr []
      else if list_all xml_char bfr then Inr [RunT bfr]
      else Inl ValueError)"

fun add_text :: "str \<Rightarrow> str \<Rightarrow> py_error + run_item list" where
  "add_text bfr [] = flush bfr"
| "add_text bfr (char # text) =
     (if char = 9 \<or> char = 13 \<or> char = 10 then
        (case flush bfr of
           Inl e \<Rightarrow> Inl e
         | Inr flushed \<Rightarrow>
             (case add_text [] text of
                Inl e \<Rightarrow> Inl e
              | Inr items \<Rightarrow> Inr (flushed @ (if char = 9 then RunTab else RunBr) # items)))
      else add_text (bfr @ [char]) text)"

definition add_paragraph :: "docx_document \<Rightarrow> str \<Rightarrow> py_error + docx_document" where
  "add_paragraph doc text =
     (if text = [] then Inr (doc\<lparr>paragraphs := paragraphs doc @ [[]]\<rparr>)
      else
        (case add_text [] text of
           Inl e \<Rightarrow> Inl e
         | Inr items \<Rightarrow> Inr (doc\<lparr>paragraphs := paragraphs doc @ [items]\<rparr>)))"

text \<open>
  The text of a paragraph as python-docx reads it back: a tab element is a tab and a
  break element is a newline.
\<close>

fun item_text :: "run_item \<Rightarrow> str" where
  "item_text (RunT s) = s"
| "item_text RunTab = [9]"
| "item_text RunBr = [10]"

definition paragraph_text :: "run_item list \<Rightarrow> str" where
  "paragraph_text items = concat (map item_text items)"

definition cr_to_nl :: "codepoint \<Rightarrow> codepoint" where
  "cr_to_nl c = (if c = 13 then 10 else c)"

text \<open>
  The renderer. An exception of \<open>add_paragraph\<close> ends it; otherwise the buffer
  returned holds the saved document, so the document stands for it.
  \<^verbatim>\<open>
  def generate_word_file(text):
      doc = Document()
      for line in text.split("\n"):
          doc.add_paragraph(line)
      buffer = BytesIO()
      doc.save(buffer)
      buffer.seek(0)
      return buffer
  \<close>
\<close>

fun add_lines :: "docx_document \<Rightarrow> str list \<Rightarrow> py_error + docx_document" where
  "add_lines doc [] = Inr doc"
| "add_lines doc (line # rest) =
     (case add_paragraph doc line of
        Inl e \<Rightarrow> Inl e
      | Inr doc' \<Rightarrow> add_lines doc' rest)"

definition generate_word_file :: "str \<Rightarrow> py_error + docx_document" where
  "generate_word_file text = add_lines new_document (str_split text 10)"

text \<open>\<open>"\n".join(lines)\<close>, to read the paragraphs back as one text.\<close>

fun join_lines :: "str list \<Rightarrow> str" where
  "join_lines [] = []"
| "join_lines [l] = l"
| "join_lines (l # ls) = l @ 10 # join_lines ls"

text \<open>
  The PDF canvas is the list of the operations called on it. The page size is
  reportlab's \<open>A4\<close>, 210 mm by 297 mm in points of 1/72 inch, so the height is
  297 * 72 / 25.4 = 841.88\<dots>. The source computes the cursor in floating point; the
  model computes it in the rationals. The cursor stays more than one unit away from
  the bottom margin 40 (lemma \<open>a4_cursor_clear\<close>), so rounding does not change a
  comparison.
  \<^verbatim>\<open>
  def generate_pdf_file(text):
      buffer = BytesIO()
      pdf = canvas.Canvas(buffer, pagesize=A4)
      _, height = A4
      y_position = height - 40
      for line in text.split("\n"):
          pdf.drawString(40, y_position, line)
          y_position -= 14
          if y_position < 40:
              pdf.showPage()
              y_position = height - 40
      pdf.save()
      buffer.seek(0)
      return buffer
  \<close>
\<close>

datatype pdf_op = DrawString rat rat str | ShowPage | Save

definition mm :: rat where
  "mm = 72 / (254 / 100) * (1 / 10)"

definition A4 :: "rat \<times> rat" where
  "A4 = (210 * mm, 297 * mm)"

text \<open>The loop: \<open>height\<close>, the cursor \<open>y_position\<close> and the lines still to draw.\<close>

fun pdf_lines :: "rat \<Rightarrow> rat \<Rightarrow> str list \<Rightarrow> pdf_op list" where
  "pdf_lines height y_position [] = []"
| "pdf_lines height y_position (line # rest) =
     DrawString 40 y_position line #
     (let y_position = y_position - 14
      in if y_position < 40 then ShowPage # pdf_lines height (height - 40) rest
         else pdf_lines height y_position rest)"

definition generate_pdf_file :: "str \<Rightarrow> pdf_op list" where
  "generate_pdf_file text =
     (let height = snd A4;
          y_position = height - 40
      in pdf_lines height y_position (str_split text 10) @ [Save])"

definition page_breaks :: "pdf_op list \<Rightarrow> nat" where
  "page_breaks ops = length (filter (\<lambda>op. op = ShowPage) ops)"

section \<open>Portfolio website\<close>

definition generate_portfolio_website :: "str \<Rightarrow> str \<Rightarrow> str" where
  "generate_portfolio_website role resume_input =
     lit ''<!DOCTYPE html>\<newline>''
     @ lit ''<html lang='en'>\<newline>''
     @ lit ''<head>\<newline>''
     @ lit ''  <meta charset='UTF-8'>\<newline>''
     @ lit ''  <meta name='viewport' content='width=device-width, ''
     @ lit ''initial-scale=1.0'>\<newline>''
     @ lit ''  <title>Portfolio - '' @ role @ lit ''</title>\<newline>''
     @ lit ''</head>\<newline>''
     @ lit ''<body>\<newline>\<newline>''
     @ lit ''<h1>Portfolio '' @ [8211] @ lit '' '' @ role @ lit ''</h1>\<newline>\<newline>''
     @ lit ''<pre>\<newline>''
     @ resume_input @ lit ''\<newline>''
     @ lit ''</pre>\<newline>\<newline>''
     @ lit ''</body>\<newline>''
     @ lit ''</html>\<newline>''"

section \<open>The submit handler\<close>

text \<open>
  The module-level code under \<open>if st.button("Submit")\<close>. The widgets give it the
  option chosen, the resume text and the job description. What it does is the list
  of its calls, in order: the two calls of the classifier (\<open>tfidf.transform\<close> and
  \<open>model.predict\<close>, which are loaded from files and so are parameters) and the
  Streamlit calls that show something. \<open>prediction[0]\<close> raises \<open>IndexError\<close> on an
  empty prediction, and an exception of \<open>generate_word_file\<close> is raised before the
  download button it is the argument of; an exception ends the run.
\<close>

datatype menu_option =
  PredictJobCategory | GenerateResume | GenerateCoverLetter | GeneratePortfolio

datatype download = DocxBuffer docx_document | PdfBuffer "pdf_op list" | HtmlText str

datatype 'v ui_event =
    Warning str
  | TfidfTransform "str list"
  | ModelPredict 'v
  | Raised py_error
  | Markdown str
  | Info str
  | TextArea str str
  | DownloadButton str download str

record 'v classifier =
  tfidf_transform :: "str list \<Rightarrow> 'v"
  model_predict :: "'v \<Rightarrow> str list"

text \<open>The chain \<open>if option == ... elif ...\<close> on the option chosen.\<close>

definition generate_outputs :: "menu_option \<Rightarrow> str \<Rightarrow> str \<Rightarrow> str \<Rightarrow> 'v ui_event list" where
  "generate_outputs option predicted_role resume_text job_description =
     (case option of
        PredictJobCategory \<Rightarrow> [Info (lit ''Job category predicted successfully.'')]
      | GenerateResume \<Rightarrow>
          (let resume_output = customize_for_job predicted_role resume_text job_description
           in TextArea (lit ''Generated Resume'') resume_output #
              (case generate_word_file resume_output of
                 Inl e \<Rightarrow> [Raised e]
               | Inr docx \<Rightarrow>
                   [DownloadButton (lit ''Download Resume (Word)'')
                      (DocxBuffer docx) (lit ''resume.docx''),
                    DownloadButton (lit ''Download Resume (PDF)'')
                      (PdfBuffer (generate_pdf_file resume_output)) (lit ''resume.pdf'')]))
      | GenerateCoverLetter \<Rightarrow>
          (let cover_output = generate_cover_letter predicted_role
           in TextArea (lit ''Generated Cover Letter'') cover_output #
              (case generate_word_file cover_output of
                 Inl e \<Rightarrow> [Raised e]
               | Inr docx \<Rightarrow>
                   [DownloadButton (lit ''Download Cover Letter (Word)'')
                      (DocxBuffer docx) (lit ''cover_letter.docx''),
                    DownloadButton (lit ''Download Cover Letter (PDF)'')
                      (PdfBuffer (generate_pdf_file cover_output)) (lit ''cover_letter.pdf'')]))
      | GeneratePortfolio \<Rightarrow>
          (let portfolio_output = generate_portfolio predicted_role
           in TextArea (lit ''Generated Portfolio'') portfolio_output #
              (case generate_word_file portfolio_output of
                 Inl e \<Rightarrow> [Raised e]
               | Inr docx \<Rightarrow>
                   (let website_html = generate_portfolio_website predicted_role resume_text
                    in [DownloadButton (lit ''Download Portfolio (Word)'')
                          (DocxBuffer docx) (lit ''portfolio.docx''),
                        DownloadButton (lit ''Download Portfolio (PDF)'')
                          (PdfBuffer (generate_pdf_file portfolio_output)) (lit ''portfolio.pdf''),
                        DownloadButton (lit ''Download Portfolio Website (HTML)'')
                          (HtmlText website_html) (lit ''portfolio.html'')]))))"

definition submit ::
  "unicode_db \<Rightarrow> 'v classifier \<Rightarrow> bool \<Rightarrow> menu_option \<Rightarrow> str \<Rightarrow> str \<Rightarrow> 'v ui_event list" where
  "submit U C button option resume_text job_description =
     (if \<not> button then []
      else if str_strip resume_text = [] then [Warning (lit ''Please enter resume text.'')]
      else
        (let cleaned_input = clean_text U resume_text;
             vectorized_input = tfidf_transform C [cleaned_input];
             prediction = model_predict C vectorized_input
         in [TfidfTransform [cleaned_input], ModelPredict vectorized_input] @
            (case prediction of
               [] \<Rightarrow> [Raised IndexError]
             | predicted_role # _ \<Rightarrow>
                 Markdown (lit ''<div class='result-box'>''
                           @ lit ''Predicted Job Category: '' @ predicted_role
                           @ lit ''</div>'')
                 # generate_outputs option predicted_role resume_text job_description)))"

section \<open>Example inputs\<close>

text \<open>
  The resume text of the end-to-end scenario and its cleaned form, and a classifier
  to run the handler with: its vectorizer returns the documents and its model
  predicts the one label "Data Science".
\<close>

definition demo_classifier :: "(str list) classifier" where
  "demo_classifier = \<lparr>tfidf_transform = (\<lambda>docs. docs), model_predict = (\<lambda>v. [lit ''Data Science''])\<rparr>"



section \<open>Properties of the string operations\<close>

lemma lit_space: "lit '' '' = [32]"
  by (simp add: lit_def)

lemma is_space_32: "is_space 32"
  by (simp add: is_space_def)

lemma filter_dropWhile_neg: "filter (\<lambda>c. \<not> P c) (dropWhile P cs) = filter (\<lambda>c. \<not> P c) cs"
  by (induction cs) auto

lemma re_sub_plus_delete: "re_sub_plus P [] s = filter (\<lambda>c. \<not> P c) s"
proof (induction P "[] :: str" s rule: re_sub_plus.induct)
  case (1 P)
  show ?case by simp
next
  case (2 P c cs)
  then show ?case by (simp add: filter_dropWhile_neg)
qed

lemma re_sub_class_delete: "re_sub_class P [] s = filter (\<lambda>c. \<not> P c) s"
  by (induction s) auto

lemma dropWhile_cases:
  "dropWhile P cs = [] \<or> (\<exists>d ds. dropWhile P cs = d # ds \<and> \<not> P d)"
  by (metis hd_dropWhile list.exhaust list.sel(1))

lemma collapse_chars:
  "c \<in> set (re_sub_plus is_space [32] s) \<Longrightarrow> c = 32 \<or> (c \<in> set s \<and> \<not> is_space c)"
proof (induction is_space "[32] :: str" s rule: re_sub_plus.induct)
  case 1
  then show ?case by simp
next
  case (2 d ds)
  then show ?case
    by (auto split: if_splits dest: set_dropWhileD)
qed

lemma collapse_no_adjacent: "no_adjacent_spaces (re_sub_plus is_space [32] s)"
proof (induction is_space "[32] :: str" s rule: re_sub_plus.induct)
  case 1
  show ?case by simp
next
  case (2 c cs)
  show ?case
  proof (cases "is_space c")
    case True
    then have step: "re_sub_plus is_space [32] (c # cs) =
        32 # re_sub_plus is_space [32] (dropWhile is_space cs)" by simp
    from dropWhile_cases [of is_space cs] show ?thesis
    proof
      assume e: "dropWhile is_space cs = []"
      show ?thesis unfolding step e by simp
    next
      assume "\<exists>d ds. dropWhile is_space cs = d # ds \<and> \<not> is_space d"
      then obtain d ds where d: "dropWhile is_space cs = d # ds" "\<not> is_space d" by blast
      then have "d \<noteq> 32" using is_space_32 by auto
      moreover have "no_adjacent_spaces (re_sub_plus is_space [32] (d # ds))"
        using 2(1) [OF True] d by simp
      ultimately show ?thesis unfolding step using d by simp
    qed
  next
    case False
    have ih: "no_adjacent_spaces (re_sub_plus is_space [32] cs)"
      using 2(2) [OF False] .
    show ?thesis
    proof (cases "re_sub_plus is_space [32] cs")
      case Nil
      with False show ?thesis by simp
    next
      case (Cons e es)
      with False ih show ?thesis using is_space_32 by auto
    qed
  qed
qed

lemma collapse_fixed:
  "\<forall>c \<in> set s. is_space c \<longrightarrow> c = 32 \<Longrightarrow> no_adjacent_spaces s \<Longrightarrow>
   re_sub_plus is_space [32] s = s"
proof (induction is_space "[32] :: str" s rule: re_sub_plus.induct)
  case 1
  show ?case by simp
next
  case (2 c cs)
  show ?case
  proof (cases "is_space c")
    case True
    then have c: "c = 32" using 2(3) by simp
    have dw: "dropWhile is_space cs = cs"
    proof (cases cs)
      case Nil then show ?thesis by simp
    next
      case (Cons d ds)
      with 2(4) c have "d \<noteq> 32" by simp
      with 2(3) Cons have "\<not> is_space d" by auto
      with Cons show ?thesis by simp
    qed
    have "no_adjacent_spaces cs" using 2(4) by (cases cs) auto
    with 2(1) [OF True] 2(3) dw have "re_sub_plus is_space [32] cs = cs" by simp
    with True c dw show ?thesis by simp
  next
    case False
    have "no_adjacent_spaces cs" using 2(4) by (cases cs) auto
    with 2(2) [OF False] 2(3) have "re_sub_plus is_space [32] cs = cs" by simp
    with False show ?thesis by simp
  qed
qed

section \<open>Text cleaning: alphabet and idempotence\<close>

lemma lower_not_space: "is_lower_ascii c \<Longrightarrow> \<not> is_space c"
  by (auto simp: is_lower_ascii_def is_space_def)

lemma clean_text_unfold:
  "clean_text U s =
     re_sub_plus is_space [32]
       (filter keep_class (filter (\<lambda>c. \<not> is_decimal U c) (str_lower U s)))"
  by (simp add: clean_text_def re_sub_plus_delete re_sub_class_delete lit_space)

lemma clean_text_chars:
  assumes "unicode_ok U" and "c \<in> set (clean_text U s)"
  shows "is_lower_ascii c \<or> c = 32"
proof -
  let ?kept = "filter keep_class (filter (\<lambda>c. \<not> is_decimal U c) (str_lower U s))"
  from assms(2) have "c = 32 \<or> (c \<in> set ?kept \<and> \<not> is_space c)"
    unfolding clean_text_unfold by (rule collapse_chars)
  then show ?thesis
  proof
    assume "c = 32"
    then show ?thesis ..
  next
    assume "c \<in> set ?kept \<and> \<not> is_space c"
    then have k: "keep_class c" and l: "c \<in> set (str_lower U s)" and s: "\<not> is_space c"
      by auto
    from assms(1) l have "\<not> is_upper_ascii c"
      by (auto simp: unicode_ok_def)
    with k s show ?thesis by (simp add: keep_class_def)
  qed
qed

lemma clean_text_no_adjacent: "no_adjacent_spaces (clean_text U s)"
  unfolding clean_text_unfold by (rule collapse_no_adjacent)

lemma ascii_lower_fixed: "is_lower_ascii c \<or> c = 32 \<Longrightarrow> ascii_lower c = c"
  by (auto simp: ascii_lower_def is_lower_ascii_def is_upper_ascii_def)

lemma ascii_not_decimal:
  assumes "unicode_ok U" and "is_lower_ascii c \<or> c = 32"
  shows "\<not> is_decimal U c"
proof -
  from assms(2) have "c < 128" by (auto simp: is_lower_ascii_def)
  with assms(1) have "is_decimal U c = ascii_digit c" by (simp add: unicode_ok_def)
  moreover from assms(2) have "\<not> ascii_digit c"
    by (auto simp: ascii_digit_def is_lower_ascii_def)
  ultimately show ?thesis by simp
qed

lemma clean_text_fixed:
  assumes ok: "unicode_ok U"
    and chars: "\<forall>c \<in> set t. is_lower_ascii c \<or> c = 32"
    and adj: "no_adjacent_spaces t"
  shows "clean_text U t = t"
proof -
  have ascii: "\<forall>c \<in> set t. c < 128"
    using chars by (auto simp: is_lower_ascii_def)
  have "str_lower U t = map ascii_lower t"
    using ok ascii by (simp add: unicode_ok_def)
  also have "\<dots> = t"
    using chars by (simp add: map_idI ascii_lower_fixed)
  finally have low: "str_lower U t = t" .
  have "\<forall>c \<in> set t. \<not> is_decimal U c"
    using chars ascii_not_decimal [OF ok] by blast
  then have dec: "filter (\<lambda>c. \<not> is_decimal U c) t = t" by simp
  have "\<forall>c \<in> set t. keep_class c"
    using chars is_space_32 by (auto simp: keep_class_def)
  then have keep: "filter keep_class t = t" by simp
  have "\<forall>c \<in> set t. is_space c \<longrightarrow> c = 32"
    using chars lower_not_space by blast
  then have "re_sub_plus is_space [32] t = t"
    using adj by (rule collapse_fixed)
  then show ?thesis by (simp add: clean_text_unfold low dec keep)
qed

lemma ascii_db_ok: "unicode_ok ascii_db"
  by (auto simp: unicode_ok_def ascii_db_def ascii_lower_def is_upper_ascii_def)

lemmas eval_defs =
  clean_text_def lit_def ascii_db_def ascii_lower_def is_upper_ascii_def ascii_digit_def
  keep_class_def is_lower_ascii_def is_space_def

text \<open>
  Claim C1. Cleaning is idempotent: for every text \<open>s\<close>, cleaning the cleaned text
  gives the cleaned text again. The Unicode tables of the interpreter are the
  parameter \<open>U\<close>.
\<close>

theorem clean_text_idempotent:
  "unicode_ok U \<Longrightarrow> clean_text U (clean_text U s) = clean_text U s"
  by (rule clean_text_fixed) (auto dest: clean_text_chars intro: clean_text_no_adjacent)

theorem clean_text_idempotent_witness:
  "unicode_ok ascii_db \<and>
   clean_text ascii_db (clean_text ascii_db (lit ''Data  Science 101!'')) =
     clean_text ascii_db (lit ''Data  Science 101!'')"
  using clean_text_idempotent [OF ascii_db_ok, of "lit ''Data  Science 101!''"] ascii_db_ok
  by simp

text \<open>
  Claim C2. Every character of a cleaned text is a lowercase letter \<open>a\<close> to \<open>z\<close> or
  the space character, none is a digit, and no two spaces are adjacent.
\<close>

theorem clean_text_alphabet:
  "unicode_ok U \<Longrightarrow>
   (\<forall>c \<in> set (clean_text U s). (is_lower_ascii c \<or> c = 32) \<and> \<not> is_decimal U c)
   \<and> no_adjacent_spaces (clean_text U s)"
  using clean_text_chars [of U _ s] ascii_not_decimal [of U] clean_text_no_adjacent [of U s]
  by blast

theorem clean_text_alphabet_witness:
  "unicode_ok ascii_db \<and>
   clean_text ascii_db (lit ''R2-D2  &\<newline>C3PO'') = lit ''rd cpo'' \<and>
   list_all (\<lambda>c. (is_lower_ascii c \<or> c = 32) \<and> \<not> is_decimal ascii_db c)
     (clean_text ascii_db (lit ''R2-D2  &\<newline>C3PO'')) \<and>
   no_adjacent_spaces (clean_text ascii_db (lit ''R2-D2  &\<newline>C3PO''))"
proof -
  have e: "clean_text ascii_db (lit ''R2-D2  &\<newline>C3PO'') = lit ''rd cpo''"
    by (simp add: eval_defs)
  from clean_text_alphabet [OF ascii_db_ok, of "lit ''R2-D2  &\<newline>C3PO''"] ascii_db_ok e
  show ?thesis unfolding list_all_iff by blast
qed

section \<open>Blank texts\<close>

lemma str_strip_Nil_iff: "str_strip s = [] \<longleftrightarrow> (\<forall>c \<in> set s. is_space c)"
proof
  assume "\<forall>c \<in> set s. is_space c"
  then show "str_strip s = []" by (auto simp: str_strip_def dest: set_dropWhileD)
next
  assume e: "str_strip s = []"
  show "\<forall>c \<in> set s. is_space c"
  proof (rule ccontr)
    assume "\<not> (\<forall>c \<in> set s. is_space c)"
    then have ne: "dropWhile is_space s \<noteq> []" by simp
    then have "\<not> is_space (hd (dropWhile is_space s))" by (rule hd_dropWhile)
    moreover have "hd (dropWhile is_space s) \<in> set (rev (dropWhile is_space s))"
      using ne by simp
    moreover from e have "\<forall>c \<in> set (rev (dropWhile is_space s)). is_space c"
      unfolding str_strip_def by (simp only: rev_is_Nil_conv dropWhile_eq_Nil_conv)
    ultimately show False by blast
  qed
qed

text \<open>
  Claim C3. When the job description is empty or holds only whitespace,
  \<open>customize_for_job\<close> returns exactly \<open>generate_resume role\<close>, whatever the candidate
  text is.
\<close>

theorem customize_blank_job:
  "\<forall>c \<in> set job_desc. is_space c \<Longrightarrow>
   customize_for_job role resume_input job_desc = generate_resume role"
  by (simp add: customize_for_job_def str_strip_Nil_iff)

theorem customize_blank_job_witness:
  "list_all is_space (lit ''  '') \<and>
   customize_for_job (lit ''Data Science'') (lit ''Python developer'') (lit ''  '') =
     generate_resume (lit ''Data Science'') \<and>
   customize_for_job (lit ''Data Science'') (lit ''Python developer'') [] =
     generate_resume (lit ''Data Science'')"
proof -
  have b: "\<forall>c \<in> set (lit ''  ''). is_space c" by (simp add: lit_def is_space_def)
  from customize_blank_job [OF b] customize_blank_job [of "[]"] b
  show ?thesis unfolding list_all_iff by simp
qed

section \<open>The Word renderer\<close>

text \<open>
  Building the content of a run succeeds exactly when every character is allowed in
  XML, and the text read back is then the text given with each carriage return
  turned into a newline.
\<close>

lemma flush_ok:
  "list_all xml_char bfr \<Longrightarrow>
   \<exists>items. flush bfr = Inr items \<and> paragraph_text items = bfr"
  by (simp add: flush_def paragraph_text_def)

lemma flush_bad: "\<not> list_all xml_char bfr \<Longrightarrow> flush bfr = Inl ValueError"
  by (auto simp: flush_def)

lemma add_text_ok:
  "list_all xml_char bfr \<Longrightarrow> list_all xml_char s \<Longrightarrow>
   \<exists>items. add_text bfr s = Inr items \<and> paragraph_text items = bfr @ map cr_to_nl s"
proof (induction s arbitrary: bfr)
  case Nil
  then show ?case using flush_ok [of bfr] by simp
next
  case (Cons c cs)
  show ?case
  proof (cases "c = 9 \<or> c = 13 \<or> c = 10")
    case True
    from flush_ok [OF Cons.prems(1)] obtain flushed
      where f: "flush bfr = Inr flushed" "paragraph_text flushed = bfr" by blast
    from Cons.IH [of "[]"] Cons.prems(2) obtain items
      where i: "add_text [] cs = Inr items" "paragraph_text items = map cr_to_nl cs" by auto
    from True f i show ?thesis
      by (auto simp: paragraph_text_def cr_to_nl_def)
  next
    case False
    from Cons.IH [of "bfr @ [c]"] Cons.prems obtain items
      where "add_text (bfr @ [c]) cs = Inr items"
        "paragraph_text items = (bfr @ [c]) @ map cr_to_nl cs" by auto
    with False show ?thesis by (simp add: cr_to_nl_def)
  qed
qed

lemma add_text_bad:
  "\<not> (list_all xml_char bfr \<and> list_all xml_char s) \<Longrightarrow> add_text bfr s = Inl ValueError"
proof (induction s arbitrary: bfr)
  case Nil
  then show ?case by (simp add: flush_bad)
next
  case (Cons c cs)
  show ?case
  proof (cases "c = 9 \<or> c = 13 \<or> c = 10")
    case True
    then have c: "xml_char c" by (auto simp: xml_char_def)
    show ?thesis
    proof (cases "list_all xml_char bfr")
      case False
      with True show ?thesis by (simp add: flush_bad)
    next
      case ok: True
      then obtain flushed where f: "flush bfr = Inr flushed" using flush_ok by blast
      from ok c Cons.prems have "\<not> (list_all xml_char [] \<and> list_all xml_char cs)" by simp
      then have "add_text [] cs = Inl ValueError" by (rule Cons.IH)
      with True f show ?thesis by simp
    qed
  next
    case False
    from Cons.prems have "\<not> (list_all xml_char (bfr @ [c]) \<and> list_all xml_char cs)" by auto
    then have "add_text (bfr @ [c]) cs = Inl ValueError" by (rule Cons.IH)
    with False show ?thesis by simp
  qed
qed

lemma add_paragraph_ok:
  assumes "list_all xml_char line"
  shows "\<exists>p. add_paragraph doc line = Inr (doc\<lparr>paragraphs := paragraphs doc @ [p]\<rparr>)
           \<and> paragraph_text p = map cr_to_nl line"
proof (cases "line = []")
  case True
  then show ?thesis
    by (intro exI [of _ "[]"]) (simp add: add_paragraph_def paragraph_text_def)
next
  case False
  from add_text_ok [of "[]" line] assms obtain items
    where "add_text [] line = Inr items" "paragraph_text items = map cr_to_nl line" by auto
  with False show ?thesis
    by (intro exI [of _ items]) (simp add: add_paragraph_def)
qed

lemma add_paragraph_bad:
  "\<not> list_all xml_char line \<Longrightarrow> add_paragraph doc line = Inl ValueError"
  using add_text_bad [of "[]" line] by (auto simp: add_paragraph_def)

lemma add_lines_ok:
  "\<forall>l \<in> set ls. list_all xml_char l \<Longrightarrow>
   \<exists>doc'. add_lines doc ls = Inr doc' \<and>
     map paragraph_text (paragraphs doc') =
       map paragraph_text (paragraphs doc) @ map (map cr_to_nl) ls"
proof (induction ls arbitrary: doc)
  case Nil
  show ?case by simp
next
  case (Cons l ls)
  then have "list_all xml_char l" by simp
  from add_paragraph_ok [OF this, of doc] obtain p
    where p: "add_paragraph doc l = Inr (doc\<lparr>paragraphs := paragraphs doc @ [p]\<rparr>)"
      "paragraph_text p = map cr_to_nl l" by blast
  from Cons.IH [of "doc\<lparr>paragraphs := paragraphs doc @ [p]\<rparr>"] Cons.prems obtain doc'
    where "add_lines (doc\<lparr>paragraphs := paragraphs doc @ [p]\<rparr>) ls = Inr doc'"
      "map paragraph_text (paragraphs doc') =
         map paragraph_text (paragraphs (doc\<lparr>paragraphs := paragraphs doc @ [p]\<rparr>))
         @ map (map cr_to_nl) ls" by auto
  with p show ?case by simp
qed

lemma add_lines_bad:
  "\<not> (\<forall>l \<in> set ls. list_all xml_char l) \<Longrightarrow> add_lines doc ls = Inl ValueError"
proof (induction ls arbitrary: doc)
  case Nil
  then show ?case by simp
next
  case (Cons l ls)
  show ?case
  proof (cases "list_all xml_char l")
    case False
    then show ?thesis by (simp add: add_paragraph_bad)
  next
    case True
    from add_paragraph_ok [OF True, of doc] obtain doc1
      where d: "add_paragraph doc l = Inr doc1" by blast
    from True Cons.prems have "\<not> (\<forall>l \<in> set ls. list_all xml_char l)" by simp
    then have "add_lines doc1 ls = Inl ValueError" by (rule Cons.IH)
    with d show ?thesis by simp
  qed
qed

lemma split_from_all:
  "(\<forall>l \<in> set (split_from sep cur s). list_all P l) \<longleftrightarrow>
   (list_all P cur \<and> (\<forall>c \<in> set s. c \<noteq> sep \<longrightarrow> P c))"
  by (induction s arbitrary: cur) (auto simp: list_all_iff)

lemma split_lines_xml:
  "(\<forall>l \<in> set (str_split text 10). list_all xml_char l) \<longleftrightarrow> list_all xml_char text"
  unfolding str_split_def split_from_all by (auto simp: list_all_iff xml_char_def)

lemma split_from_not_Nil: "split_from sep cur s \<noteq> []"
  by (induction s arbitrary: cur) auto

lemma join_lines_Cons: "ls \<noteq> [] \<Longrightarrow> join_lines (l # ls) = l @ 10 # join_lines ls"
  by (cases ls) auto

lemma join_split_from: "join_lines (split_from 10 cur s) = rev cur @ s"
  by (induction s arbitrary: cur) (auto simp: join_lines_Cons split_from_not_Nil)

lemma length_split_from: "length (split_from sep cur s) = count_list s sep + 1"
  by (induction s arbitrary: cur) auto

lemma length_str_split: "length (str_split s sep) = count_list s sep + 1"
  by (simp add: str_split_def length_split_from)

lemma word_file_ok:
  assumes "list_all xml_char text"
  shows "\<exists>doc. generate_word_file text = Inr doc \<and>
     map paragraph_text (paragraphs doc) = map (map cr_to_nl) (str_split text 10)"
proof -
  from assms have "\<forall>l \<in> set (str_split text 10). list_all xml_char l"
    by (simp only: split_lines_xml)
  from add_lines_ok [OF this, of new_document] show ?thesis
    by (simp add: generate_word_file_def new_document_def)
qed

lemma word_file_bad:
  assumes "\<not> list_all xml_char text"
  shows "generate_word_file text = Inl ValueError"
proof -
  from assms have "\<not> (\<forall>l \<in> set (str_split text 10). list_all xml_char l)"
    by (simp add: split_lines_xml)
  then show ?thesis
    unfolding generate_word_file_def by (rule add_lines_bad)
qed

lemma word_file_length:
  assumes "generate_word_file text = Inr doc"
  shows "length (paragraphs doc) = count_list text 10 + 1"
proof -
  have "list_all xml_char text"
    using assms word_file_bad [of "text"] by auto
  from word_file_ok [OF this] assms
  have "map paragraph_text (paragraphs doc) = map (map cr_to_nl) (str_split text 10)" by auto
  then have "length (paragraphs doc) = length (str_split text 10)"
    by (metis length_map)
  then show ?thesis by (simp add: length_str_split)
qed

lemma cr_to_nl_id: "13 \<notin> set l \<Longrightarrow> map cr_to_nl l = l"
  by (induction l) (auto simp: cr_to_nl_def)

text \<open>
  Claim C4, as amended. For every text whose characters are all allowed in XML and
  that holds no carriage return, the Word renderer returns a document with one
  paragraph per line, in the order of the lines, an empty line giving an empty
  paragraph: there are as many paragraphs as the text has newlines plus one, no
  paragraph holds a newline, and the texts of the paragraphs joined with newlines are
  the text.
\<close>

theorem word_file_one_paragraph_per_line:
  assumes "list_all xml_char text" and "13 \<notin> set text"
  shows "\<exists>doc. generate_word_file text = Inr doc
     \<and> length (paragraphs doc) = count_list text 10 + 1
     \<and> list_all (\<lambda>p. 10 \<notin> set (paragraph_text p)) (paragraphs doc)
     \<and> join_lines (map paragraph_text (paragraphs doc)) = text"
proof -
  from word_file_ok [OF assms(1)] obtain doc
    where d: "generate_word_file text = Inr doc"
      and t: "map paragraph_text (paragraphs doc) = map (map cr_to_nl) (str_split text 10)"
    by blast
  have nocr: "\<forall>l \<in> set (split_from 10 [] text). list_all (\<lambda>c. c \<noteq> 13) l"
    unfolding split_from_all using assms(2) by auto
  have nonl: "\<forall>l \<in> set (split_from 10 [] text). list_all (\<lambda>c. c \<noteq> 10) l"
    unfolding split_from_all by simp
  have "map (map cr_to_nl) (str_split text 10) = str_split text 10"
    unfolding str_split_def using nocr by (intro map_idI cr_to_nl_id) (auto simp: list_all_iff)
  with t have texts: "map paragraph_text (paragraphs doc) = str_split text 10" by simp
  then have j: "join_lines (map paragraph_text (paragraphs doc)) = text"
    by (simp add: str_split_def join_split_from)
  have "\<forall>l \<in> set (map paragraph_text (paragraphs doc)). 10 \<notin> set l"
    unfolding texts str_split_def using nonl by (auto simp: list_all_iff)
  then have n: "list_all (\<lambda>p. 10 \<notin> set (paragraph_text p)) (paragraphs doc)"
    by (simp add: list_all_iff)
  from d word_file_length [OF d] n j show ?thesis by blast
qed

lemmas word_eval =
  generate_word_file_def str_split_def new_document_def add_paragraph_def flush_def
  xml_char_def lit_def paragraph_text_def

theorem word_file_one_paragraph_per_line_witness:
  "list_all xml_char (lit ''a\<newline>\<newline>b c'') \<and> 13 \<notin> set (lit ''a\<newline>\<newline>b c'') \<and>
   generate_word_file (lit ''a\<newline>\<newline>b c'') =
     Inr \<lparr>paragraphs = [[RunT (lit ''a'')], [], [RunT (lit ''b c'')]]\<rparr> \<and>
   (\<exists>doc. generate_word_file (lit ''a\<newline>\<newline>b c'') = Inr doc
     \<and> length (paragraphs doc) = count_list (lit ''a\<newline>\<newline>b c'') 10 + 1
     \<and> list_all (\<lambda>p. 10 \<notin> set (paragraph_text p)) (paragraphs doc)
     \<and> join_lines (map paragraph_text (paragraphs doc)) = lit ''a\<newline>\<newline>b c'')"
proof -
  have a: "list_all xml_char (lit ''a\<newline>\<newline>b c'')" by (simp add: lit_def xml_char_def)
  have b: "13 \<notin> set (lit ''a\<newline>\<newline>b c'')" by (simp add: lit_def)
  have e: "generate_word_file (lit ''a\<newline>\<newline>b c'') =
     Inr \<lparr>paragraphs = [[RunT (lit ''a'')], [], [RunT (lit ''b c'')]]\<rparr>"
    by (simp add: word_eval)
  from word_file_one_paragraph_per_line [OF a b] a b e show ?thesis by blast
qed

text \<open>
  Claim C4, as stated, fails. On the text of one form feed the renderer raises
  \<open>ValueError\<close> and there is no document. On the one line \<open>a\rb\<close> the paragraph holds
  a break where the line has the carriage return, so that its text reads \<open>a\nb\<close>,
  which is not the line.
\<close>

theorem word_file_lines_counterexample:
  "generate_word_file [12] = Inl ValueError \<and>
   generate_word_file (lit ''a'' @ [13] @ lit ''b'') =
     Inr \<lparr>paragraphs = [[RunT (lit ''a''), RunBr, RunT (lit ''b'')]]\<rparr> \<and>
   paragraph_text [RunT (lit ''a''), RunBr, RunT (lit ''b'')] = lit ''a\<newline>b'' \<and>
   str_split (lit ''a'' @ [13] @ lit ''b'') 10 = [lit ''a'' @ [13] @ lit ''b'']"
  by (simp add: word_eval)

text \<open>
  Claim C10, as amended. For every text whose characters are all allowed in XML, the
  Word renderer returns a document with one paragraph more than the text has newline
  characters, hence at least one; for every other text it raises \<open>ValueError\<close>. The
  empty text gives one empty paragraph.
\<close>

theorem word_file_paragraph_count:
  "(list_all xml_char text \<longrightarrow>
      (\<exists>doc. generate_word_file text = Inr doc
         \<and> length (paragraphs doc) = count_list text 10 + 1
         \<and> paragraphs doc \<noteq> []))
   \<and> (\<not> list_all xml_char text \<longrightarrow> generate_word_file text = Inl ValueError)
   \<and> generate_word_file [] = Inr \<lparr>paragraphs = [[]]\<rparr>"
proof (intro conjI impI)
  assume "list_all xml_char text"
  from word_file_ok [OF this] obtain doc where d: "generate_word_file text = Inr doc" by blast
  from word_file_length [OF d] have "length (paragraphs doc) = count_list text 10 + 1" .
  moreover from this have "paragraphs doc \<noteq> []" by auto
  ultimately show "\<exists>doc. generate_word_file text = Inr doc
         \<and> length (paragraphs doc) = count_list text 10 + 1
         \<and> paragraphs doc \<noteq> []" using d by blast
next
  assume "\<not> list_all xml_char text"
  then show "generate_word_file text = Inl ValueError" by (rule word_file_bad)
next
  show "generate_word_file [] = Inr \<lparr>paragraphs = [[]]\<rparr>"
    by (simp add: word_eval)
qed

theorem word_file_paragraph_count_witness:
  "list_all xml_char (lit ''a\<newline>\<newline>b'') \<and>
   (\<exists>doc. generate_word_file (lit ''a\<newline>\<newline>b'') = Inr doc \<and> length (paragraphs doc) = 3) \<and>
   \<not> list_all xml_char [0] \<and> generate_word_file [0] = Inl ValueError"
proof -
  have a: "list_all xml_char (lit ''a\<newline>\<newline>b'')" by (simp add: lit_def xml_char_def)
  have c: "count_list (lit ''a\<newline>\<newline>b'') 10 + 1 = 3" by (simp add: lit_def)
  have b: "\<not> list_all xml_char [0]" by (simp add: xml_char_def)
  from word_file_paragraph_count [of "lit ''a\<newline>\<newline>b''"] a c
  have "\<exists>doc. generate_word_file (lit ''a\<newline>\<newline>b'') = Inr doc \<and> length (paragraphs doc) = 3"
    by auto
  moreover from word_file_paragraph_count [of "[0]"] b
  have "generate_word_file [0] = Inl ValueError" by blast
  ultimately show ?thesis using a b by blast
qed

text \<open>
  Claim C10, as stated, fails. The text \<open>x\vy\<close> with a newline before the \<open>y\<close> has one
  newline, so the claim gives it two paragraphs; the vertical tab makes the renderer
  raise \<open>ValueError\<close>.
\<close>

theorem word_file_count_counterexample:
  "count_list (lit ''x'' @ [11] @ lit ''\<newline>y'') 10 + 1 = 2 \<and>
   generate_word_file (lit ''x'' @ [11] @ lit ''\<newline>y'') = Inl ValueError"
  by (simp add: word_eval)

section \<open>The submit handler\<close>

text \<open>
  Claim C7. When the resume text is empty or holds only whitespace, the handler
  shows the warning and does nothing else: the classifier is not called, no text is
  generated and no download is offered.
\<close>

theorem submit_blank_resume:
  "\<forall>c \<in> set resume_text. is_space c \<Longrightarrow>
   submit U C True option resume_text job_description =
     [Warning (lit ''Please enter resume text.'')]"
  by (simp add: submit_def str_strip_Nil_iff)

theorem submit_blank_resume_witness:
  "list_all is_space (lit '' \<newline> '') \<and>
   submit ascii_db \<lparr>tfidf_transform = \<lambda>docs. docs, model_predict = \<lambda>v. [lit ''HR'']\<rparr>
     True GenerateResume (lit '' \<newline> '') (lit ''Python'') =
     [Warning (lit ''Please enter resume text.'')]"
proof -
  have b: "\<forall>c \<in> set (lit '' \<newline> ''). is_space c" by (simp add: lit_def is_space_def)
  from submit_blank_resume [OF b] b
  show ?thesis unfolding list_all_iff by simp
qed

text \<open>
  The branches for the cover letter and the portfolio do not read the job
  description.
\<close>

lemma outputs_ignore_job_description:
  "generate_outputs GenerateCoverLetter role resume_text jd1 =
     generate_outputs GenerateCoverLetter role resume_text jd2"
  "generate_outputs GeneratePortfolio role resume_text jd1 =
     generate_outputs GeneratePortfolio role resume_text jd2"
  by (simp_all add: generate_outputs_def)

text \<open>
  Claim C9. For the options Generate Cover Letter and Generate Portfolio, two runs
  that differ only in the job description do the same calls with the same arguments:
  the same generated texts and the same downloads.
\<close>

theorem job_description_ignored:
  "submit U C button GenerateCoverLetter resume_text jd1 =
     submit U C button GenerateCoverLetter resume_text jd2 \<and>
   submit U C button GeneratePortfolio resume_text jd1 =
     submit U C button GeneratePortfolio resume_text jd2"
  by (simp add: submit_def Let_def outputs_ignore_job_description [of _ resume_text jd1 jd2]
      split: list.split)

section \<open>The PDF renderer\<close>

text \<open>
  The loop, for a page of height \<open>H\<close> that holds \<open>N\<close> lines: \<open>N\<close> is the number
  with \<open>14 * (N - 1) \<le> H - 80 < 14 * N\<close>, that is \<open>\<lfloor>(H - 80) / 14\<rfloor> + 1\<close>. With \<open>k\<close>
  lines on the current page, line \<open>i\<close> of the rest is drawn \<open>(k + i) mod N\<close> lines
  below the top margin, and a page is ended after each line that is the last of its
  page.
\<close>

lemma pdf_lines_layout:
  fixes H :: rat
  assumes N: "0 < N" and hi: "H - 80 < 14 * of_nat N" and lo: "14 * of_nat (N - 1) \<le> H - 80"
  shows "k < N \<Longrightarrow>
    pdf_lines H (H - 40 - 14 * of_nat k) ls =
      concat (map (\<lambda>i. DrawString 40 (H - 40 - 14 * of_nat ((k + i) mod N)) (ls ! i) #
                        (if (k + i) mod N = N - 1 then [ShowPage] else []))
               [0..<length ls])"
proof (induction ls arbitrary: k)
  case Nil
  show ?case by simp
next
  case (Cons l rest)
  define F where "F k ls i =
    DrawString 40 (H - 40 - 14 * of_nat ((k + i) mod N)) (ls ! i) #
      (if (k + i) mod N = N - 1 then [ShowPage] else [])" for k :: nat and ls :: "str list" and i
  have IH: "pdf_lines H (H - 40 - 14 * of_nat j) rest = concat (map (F j rest) [0..<length rest])"
    if "j < N" for j
    using Cons.IH [OF that] unfolding F_def .
  have unroll: "concat (map (F k (l # rest)) [0..<length (l # rest)]) =
      F k (l # rest) 0 @ concat (map (\<lambda>i. F k (l # rest) (Suc i)) [0..<length rest])"
    by (simp add: map_upt_Suc del: upt_Suc)
  have kmod: "k mod N = k" using Cons.prems by simp
  have goal: "pdf_lines H (H - 40 - 14 * of_nat k) (l # rest) =
      concat (map (F k (l # rest)) [0..<length (l # rest)])"
  proof (cases "Suc k = N")
    case True
    then have brk: "H - 40 - 14 * of_nat k - 14 < 40"
      using hi by (simp add: algebra_simps)
    have last: "k = N - 1" using True by simp
    have idx: "(k + Suc i) mod N = (0 + i) mod N" for i
      using True by (metis add_Suc_right add_Suc add_0 mod_add_self1)
    have shift: "(\<lambda>i. F k (l # rest) (Suc i)) = F 0 rest"
      unfolding F_def by (rule ext) (simp only: idx nth_Cons_Suc)
    have first: "F k (l # rest) 0 = [DrawString 40 (H - 40 - 14 * of_nat k) l, ShowPage]"
      unfolding F_def using last kmod by simp
    have "pdf_lines H (H - 40 - 14 * of_nat k) (l # rest) =
        DrawString 40 (H - 40 - 14 * of_nat k) l # ShowPage # pdf_lines H (H - 40) rest"
      using brk by simp
    also have "pdf_lines H (H - 40) rest = concat (map (F 0 rest) [0..<length rest])"
      using IH [OF N] by simp
    finally show ?thesis unfolding unroll shift first by simp
  next
    case False
    with Cons.prems have sk: "Suc k < N" by simp
    then have "Suc k \<le> N - 1" by simp
    then have "(of_nat (Suc k) :: rat) \<le> of_nat (N - 1)" by (simp only: of_nat_le_iff)
    with lo have nobrk: "\<not> H - 40 - 14 * of_nat k - 14 < 40"
      by (simp add: algebra_simps)
    have y: "H - 40 - 14 * of_nat k - 14 = H - 40 - 14 * of_nat (Suc k)"
      by (simp add: algebra_simps)
    have notlast: "k \<noteq> N - 1" using sk by simp
    have shift: "(\<lambda>i. F k (l # rest) (Suc i)) = F (Suc k) rest"
      unfolding F_def by (rule ext) (simp only: add_Suc_right add_Suc nth_Cons_Suc)
    have first: "F k (l # rest) 0 = [DrawString 40 (H - 40 - 14 * of_nat k) l]"
      unfolding F_def using notlast kmod by simp
    have "pdf_lines H (H - 40 - 14 * of_nat k) (l # rest) =
        DrawString 40 (H - 40 - 14 * of_nat k) l #
        pdf_lines H (H - 40 - 14 * of_nat k - 14) rest"
      using nobrk by simp
    also have "pdf_lines H (H - 40 - 14 * of_nat k - 14) rest =
        concat (map (F (Suc k) rest) [0..<length rest])"
      unfolding y using IH [OF sk] .
    finally show ?thesis unfolding unroll shift first by simp
  qed
  then show ?case unfolding F_def .
qed

lemma page_breaks_layout:
  "page_breaks (concat (map (\<lambda>i. DrawString x (g i) (h i) #
                               (if i mod N = N - 1 then [ShowPage] else []))
                      [0..<n])) = length (filter (\<lambda>i. i mod N = N - 1) [0..<n])"
  by (induction n) (simp_all add: page_breaks_def)

lemma count_last_of_page:
  "0 < N \<Longrightarrow> length (filter (\<lambda>i. i mod N = N - 1) [0..<n]) = n div N"
proof (induction n)
  case 0
  show ?case by simp
next
  case (Suc n)
  have "Suc n mod N = 0 \<longleftrightarrow> n mod N = N - 1"
    using Suc.prems by (auto simp: mod_Suc)
  with Suc show ?case by (simp add: div_Suc)
qed

lemma a4_height: "snd A4 = 106920 / 127"
  by (simp add: A4_def mm_def)

lemma a4_capacity:
  "snd A4 - 80 < 14 * of_nat (55::nat)" "14 * of_nat ((55::nat) - 1) \<le> snd A4 - 80"
  by (simp_all add: a4_height)

lemma page_breaks_append_Save: "page_breaks (ops @ [Save]) = page_breaks ops"
  by (simp add: page_breaks_def)

lemma page_breaks_pdf_lines:
  fixes H :: rat
  assumes "0 < N" and "H - 80 < 14 * of_nat N" and "14 * of_nat (N - 1) \<le> H - 80"
  shows "page_breaks (pdf_lines H (H - 40) ls) = length ls div N"
proof -
  have "pdf_lines H (H - 40 - 14 * of_nat (0::nat)) ls =
      concat (map (\<lambda>i. DrawString 40 (H - 40 - 14 * of_nat ((0 + i) mod N)) (ls ! i) #
                        (if (0 + i) mod N = N - 1 then [ShowPage] else []))
               [0..<length ls])"
    by (rule pdf_lines_layout [OF assms]) (rule assms(1))
  then have eq: "pdf_lines H (H - 40) ls =
      concat (map (\<lambda>i. DrawString 40 (H - 40 - 14 * of_nat (i mod N)) (ls ! i) #
                        (if i mod N = N - 1 then [ShowPage] else []))
               [0..<length ls])"
    by simp
  show ?thesis
    unfolding eq page_breaks_layout by (rule count_last_of_page [OF assms(1)])
qed

lemma count_list_replicate: "count_list (replicate n x) x = n"
  by (induction n) auto

lemma page_breaks_generate:
  "page_breaks (generate_pdf_file text) = length (str_split text 10) div 55"
  using page_breaks_pdf_lines [of 55 "snd A4" "str_split text 10"] a4_capacity
  by (simp add: generate_pdf_file_def Let_def page_breaks_append_Save)

lemma a4_cursor_clear:
  assumes "k < 55"
  shows "1 < \<bar>(snd A4 - 40 - 14 * of_nat k - 14) - 40\<bar>"
proof (cases "k = 54")
  case True
  then show ?thesis by (simp add: a4_height)
next
  case False
  with assms have "k \<le> 53" by simp
  then have "(of_nat k :: rat) \<le> of_nat 53" by (simp only: of_nat_le_iff)
  then show ?thesis by (simp add: a4_height)
qed

text \<open>
  Claim C5, as amended. The first line is drawn at the height of the page less the
  top margin 40, each following line 14 units lower, and the renderer ends the page
  after a line when the cursor, moved down by 14, is below the bottom margin 40; the
  cursor then starts again at the top margin. On A4 a page holds 55 lines
  (\<open>\<lfloor>(841.89 - 80) / 14\<rfloor> + 1\<close>): line \<open>i\<close>, counted from 0, is drawn
  \<open>14 * (i mod 55)\<close> below the top margin, a page is ended after every 55th line, and a
  text of \<open>n\<close> lines gives \<open>n div 55\<close> page breaks.
\<close>

theorem pdf_a4_layout:
  "generate_pdf_file text =
     concat (map (\<lambda>i. DrawString 40 (snd A4 - 40 - 14 * of_nat (i mod 55)) (str_split text 10 ! i) #
                       (if i mod 55 = 54 then [ShowPage] else []))
              [0..<length (str_split text 10)]) @ [Save]
   \<and> page_breaks (generate_pdf_file text) = length (str_split text 10) div 55"
proof -
  have "pdf_lines (snd A4) (snd A4 - 40 - 14 * of_nat (0::nat)) (str_split text 10) =
      concat (map (\<lambda>i. DrawString 40 (snd A4 - 40 - 14 * of_nat ((0 + i) mod 55))
                          (str_split text 10 ! i) #
                        (if (0 + i) mod 55 = 55 - 1 then [ShowPage] else []))
               [0..<length (str_split text 10)])"
    using a4_capacity by (intro pdf_lines_layout) simp_all
  then have "generate_pdf_file text =
     concat (map (\<lambda>i. DrawString 40 (snd A4 - 40 - 14 * of_nat (i mod 55)) (str_split text 10 ! i) #
                       (if i mod 55 = 54 then [ShowPage] else []))
              [0..<length (str_split text 10)]) @ [Save]"
    by (simp add: generate_pdf_file_def Let_def)
  then show ?thesis
    using page_breaks_generate [of "text"] by (rule conjI)
qed

text \<open>
  Claim C5, as stated, fails. A text of 52 lines, one more than
  \<open>\<lfloor>(800 - 80) / 14\<rfloor> = 51\<close>, is drawn without a page break, and a text of 110 lines
  has two page breaks, not one. On a page of height 800 itself, 51 lines do not end
  the page; the page is ended after line 52.
\<close>

theorem pdf_page_break_counterexample:
  "length (str_split (replicate 51 10) 10) = 52 \<and>
   page_breaks (generate_pdf_file (replicate 51 10)) = 0 \<and>
   length (str_split (replicate 109 10) 10) = 110 \<and>
   page_breaks (generate_pdf_file (replicate 109 10)) = 2 \<and>
   page_breaks (pdf_lines 800 (800 - 40) (replicate 51 [])) = 0 \<and>
   page_breaks (pdf_lines 800 (800 - 40) (replicate 52 [])) = 1"
proof -
  have "page_breaks (pdf_lines 800 (800 - 40) ls) = length ls div 52" for ls
    by (rule page_breaks_pdf_lines) simp_all
  then show ?thesis
    by (simp add: page_breaks_generate length_str_split count_list_replicate)
qed

section \<open>The handler on a resume that is not blank\<close>

text \<open>
  With a resume text that is not blank and a prediction that has a first label, the
  handler calls the vectorizer and the model once each, shows the label and then does
  what the option asks for.
\<close>

lemma submit_trace:
  assumes "str_strip resume_text \<noteq> []"
    and "model_predict C (tfidf_transform C [clean_text U resume_text]) = predicted_role # rest"
  shows "submit U C True option resume_text job_description =
     [TfidfTransform [clean_text U resume_text],
      ModelPredict (tfidf_transform C [clean_text U resume_text]),
      Markdown (lit ''<div class='result-box'>'' @ lit ''Predicted Job Category: ''
                @ predicted_role @ lit ''</div>'')]
     @ generate_outputs option predicted_role resume_text job_description"
  using assms by (simp add: submit_def Let_def)

text \<open>The templates add only characters that are allowed in XML.\<close>

lemma portfolio_xml:
  "list_all xml_char role \<Longrightarrow> list_all xml_char (generate_portfolio role)"
  by (simp add: generate_portfolio_def lit_def xml_char_def)


text \<open>
  Claim C6. The website of \<open>generate_portfolio_website\<close> holds the label inside
  the \<open>title\<close> element and the candidate text, character for character and so
  without escaping, inside the \<open>pre\<close> block. For the option Generate Portfolio the
  handler shows the portfolio text and renders it to Word; when that succeeds, as it
  does for every label of characters allowed in XML, it offers the Word and PDF files
  and then, as \<open>portfolio.html\<close>, the website built from the resume text as it was
  entered, not from the cleaned text and not from the portfolio text.
\<close>

theorem portfolio_website_embeds_raw_text:
  "(\<exists>before between after.
      generate_portfolio_website role resume_input =
        before @ lit ''<title>Portfolio - '' @ role @ lit ''</title>'' @ between
        @ lit ''<pre>\<newline>'' @ resume_input @ lit ''\<newline></pre>'' @ after)
   \<and> (str_strip resume_text \<noteq> [] \<longrightarrow>
       model_predict C (tfidf_transform C [clean_text U resume_text]) = predicted_role # rest \<longrightarrow>
       submit U C True GeneratePortfolio resume_text job_description =
         [TfidfTransform [clean_text U resume_text],
          ModelPredict (tfidf_transform C [clean_text U resume_text]),
          Markdown (lit ''<div class='result-box'>'' @ lit ''Predicted Job Category: ''
                    @ predicted_role @ lit ''</div>''),
          TextArea (lit ''Generated Portfolio'') (generate_portfolio predicted_role)]
         @ (case generate_word_file (generate_portfolio predicted_role) of
              Inl e \<Rightarrow> [Raised e]
            | Inr docx \<Rightarrow>
                [DownloadButton (lit ''Download Portfolio (Word)'')
                   (DocxBuffer docx) (lit ''portfolio.docx''),
                 DownloadButton (lit ''Download Portfolio (PDF)'')
                   (PdfBuffer (generate_pdf_file (generate_portfolio predicted_role)))
                   (lit ''portfolio.pdf''),
                 DownloadButton (lit ''Download Portfolio Website (HTML)'')
                   (HtmlText (generate_portfolio_website predicted_role resume_text))
                   (lit ''portfolio.html'')]))
   \<and> (list_all xml_char predicted_role \<longrightarrow>
       (\<exists>docx. generate_word_file (generate_portfolio predicted_role) = Inr docx))"
proof (intro conjI impI)
  let ?before = "lit ''<!DOCTYPE html>\<newline>'' @ lit ''<html lang='en'>\<newline>''
     @ lit ''<head>\<newline>'' @ lit ''  <meta charset='UTF-8'>\<newline>''
     @ lit ''  <meta name='viewport' content='width=device-width, ''
     @ lit ''initial-scale=1.0'>\<newline>'' @ lit ''  ''"
  let ?between = "lit ''\<newline>'' @ lit ''</head>\<newline>'' @ lit ''<body>\<newline>\<newline>''
     @ lit ''<h1>Portfolio '' @ [8211] @ lit '' '' @ role @ lit ''</h1>\<newline>\<newline>''"
  let ?after = "lit ''\<newline>\<newline>'' @ lit ''</body>\<newline>'' @ lit ''</html>\<newline>''"
  have "generate_portfolio_website role resume_input =
        ?before @ lit ''<title>Portfolio - '' @ role @ lit ''</title>'' @ ?between
        @ lit ''<pre>\<newline>'' @ resume_input @ lit ''\<newline></pre>'' @ ?after"
    by (simp add: generate_portfolio_website_def lit_def)
  then show "\<exists>before between after.
      generate_portfolio_website role resume_input =
        before @ lit ''<title>Portfolio - '' @ role @ lit ''</title>'' @ between
        @ lit ''<pre>\<newline>'' @ resume_input @ lit ''\<newline></pre>'' @ after"
    by blast
next
  assume "str_strip resume_text \<noteq> []"
    and "model_predict C (tfidf_transform C [clean_text U resume_text]) = predicted_role # rest"
  then show "submit U C True GeneratePortfolio resume_text job_description =
         [TfidfTransform [clean_text U resume_text],
          ModelPredict (tfidf_transform C [clean_text U resume_text]),
          Markdown (lit ''<div class='result-box'>'' @ lit ''Predicted Job Category: ''
                    @ predicted_role @ lit ''</div>''),
          TextArea (lit ''Generated Portfolio'') (generate_portfolio predicted_role)]
         @ (case generate_word_file (generate_portfolio predicted_role) of
              Inl e \<Rightarrow> [Raised e]
            | Inr docx \<Rightarrow>
                [DownloadButton (lit ''Download Portfolio (Word)'')
                   (DocxBuffer docx) (lit ''portfolio.docx''),
                 DownloadButton (lit ''Download Portfolio (PDF)'')
                   (PdfBuffer (generate_pdf_file (generate_portfolio predicted_role)))
                   (lit ''portfolio.pdf''),
                 DownloadButton (lit ''Download Portfolio Website (HTML)'')
                   (HtmlText (generate_portfolio_website predicted_role resume_text))
                   (lit ''portfolio.html'')])"
    by (simp add: submit_trace generate_outputs_def Let_def split: sum.split)
next
  assume "list_all xml_char predicted_role"
  then have "list_all xml_char (generate_portfolio predicted_role)" by (rule portfolio_xml)
  from word_file_ok [OF this]
  show "\<exists>docx. generate_word_file (generate_portfolio predicted_role) = Inr docx" by blast
qed

lemma str_strip_not_blank: "c \<in> set s \<Longrightarrow> \<not> is_space c \<Longrightarrow> str_strip s \<noteq> []"
  using str_strip_Nil_iff by blast

theorem portfolio_website_embeds_raw_text_witness:
  "str_strip (lit ''<b>SQL & R</b>'') \<noteq> [] \<and>
   model_predict demo_classifier
     (tfidf_transform demo_classifier [clean_text ascii_db (lit ''<b>SQL & R</b>'')]) =
     lit ''Data Science'' # [] \<and>
   list_all xml_char (lit ''Data Science'') \<and>
   last (submit ascii_db demo_classifier True GeneratePortfolio (lit ''<b>SQL & R</b>'') (lit ''job'')) =
     DownloadButton (lit ''Download Portfolio Website (HTML)'')
       (HtmlText (generate_portfolio_website (lit ''Data Science'') (lit ''<b>SQL & R</b>'')))
       (lit ''portfolio.html'')"
proof -
  have a: "str_strip (lit ''<b>SQL & R</b>'') \<noteq> []"
    by (rule str_strip_not_blank [of 60]) (simp_all add: lit_def is_space_def)
  have b: "model_predict demo_classifier
     (tfidf_transform demo_classifier [clean_text ascii_db (lit ''<b>SQL & R</b>'')]) =
     lit ''Data Science'' # []"
    by (simp add: demo_classifier_def)
  have x: "list_all xml_char (lit ''Data Science'')"
    by (simp add: lit_def xml_char_def)
  note T = portfolio_website_embeds_raw_text
    [of _ _ "lit ''<b>SQL & R</b>''" demo_classifier ascii_db "lit ''Data Science''" "[]" "lit ''job''"]
  from T x obtain docx
    where d: "generate_word_file (generate_portfolio (lit ''Data Science'')) = Inr docx"
    by blast
  from T a b
  have "last (submit ascii_db demo_classifier True GeneratePortfolio (lit ''<b>SQL & R</b>'')
      (lit ''job'')) =
     DownloadButton (lit ''Download Portfolio Website (HTML)'')
       (HtmlText (generate_portfolio_website (lit ''Data Science'') (lit ''<b>SQL & R</b>'')))
       (lit ''portfolio.html'')"
    by (simp add: d)
  with a b x show ?thesis by blast
qed

section \<open>The resume scenario\<close>








end
